theory Spec2Isabelle
  imports Main
begin

section \<open>The completion-queue engine of asio-grpc\<close>

text \<open>
  A shallow embedding of \<^verbatim>\<open>agrpc/detail/grpc_context_implementation.ipp\<close> (submission,
  dispatch and one pass of the run loop of \<^verbatim>\<open>agrpc::GrpcContext\<close>; the outer loop
  \<^verbatim>\<open>process_work\<close> is left out) and of \<^verbatim>\<open>agrpc/detail/rpc_client_context_base.hpp\<close>
  (the auto-cancelling reference to a \<^verbatim>\<open>grpc::ClientContext\<close>).

  Objects are named by their address; \<^verbatim>\<open>nullptr\<close> is \<open>None\<close> where a pointer is nullable.
  A completion-queue tag is the address of the operation that waits for it. Calls that leave
  the engine (the virtual \<^verbatim>\<open>complete\<close> of an operation, \<^verbatim>\<open>CompletionQueue::AsyncNext\<close>,
  \<^verbatim>\<open>Alarm::Set\<close>) and the scope guard's \<^verbatim>\<open>work_finished\<close> are recorded, in the order in
  which they happen, in a trace that user continuations cannot reach.
\<close>

subsection \<open>Data\<close>

type_synonym addr = nat
type_synonym tag = addr
type_synonym thread = nat
type_synonym gpr_timespec = int

datatype OperationResult = OK | NOT_OK | SHUTDOWN_OK | SHUTDOWN_NOT_OK

datatype InvokeHandler = NO | YES

text \<open>What \<^verbatim>\<open>grpc::CompletionQueue::AsyncNext\<close> returns, with the tag and the ok flag it
  writes when it has an event.\<close>

datatype NextStatus = SHUTDOWN | GOT_EVENT tag bool | TIMEOUT

record GrpcCompletionQueueEvent =
  ev_tag :: tag
  ev_ok :: bool

text \<open>A continuation that faults: the exception it throws.\<close>

datatype error = ContinuationFault nat

datatype action =
    Complete tag OperationResult
  | WorkFinished
  | AsyncNext gpr_timespec
  | AlarmSet gpr_timespec tag

text \<open>Modelled from the spec: the constants \<^verbatim>\<open>HAS_REMOTE_WORK_TAG\<close> and \<^verbatim>\<open>TIME_ZERO\<close> are
  declared in a header that is not among the sources. The spec calls them the distinguished
  has-remote-work wake tag and a zero timeout; a tag is the address of its operation, so the wake
  tag is the one address that is no operation's, the null address.\<close>

definition HAS_REMOTE_WORK_TAG :: tag where
  "HAS_REMOTE_WORK_TAG = 0"

text \<open>Modelled from the spec: \<^verbatim>\<open>TIME_ZERO\<close>, declared outside the sources, is the zero
  timeout of the spec.\<close>

definition TIME_ZERO :: gpr_timespec where
  "TIME_ZERO = 0"

text \<open>Modelled from the spec: the class \<^verbatim>\<open>AtomicIntrusiveQueue\<close> is not among the sources.
  \<^verbatim>\<open>enqueue\<close> pushes and reports whether the queue went from inactive to active;
  \<^verbatim>\<open>try_mark_inactive_or_dequeue_all\<close> marks an empty queue inactive, and otherwise
  claims the whole pending chain in FIFO order.\<close>

record AtomicIntrusiveQueue =
  items :: "tag list"
  active :: bool

text \<open>Modelled from the spec: \<^verbatim>\<open>AtomicIntrusiveQueue::enqueue\<close> pushes the node and
  reports whether that push took the queue from inactive to active.\<close>

definition enqueue :: "AtomicIntrusiveQueue \<Rightarrow> tag \<Rightarrow> bool \<times> AtomicIntrusiveQueue" where
  "enqueue q op = (\<not> active q, q\<lparr>items := items q @ [op], active := True\<rparr>)"

text \<open>Modelled from the spec: \<^verbatim>\<open>AtomicIntrusiveQueue::try_mark_inactive_or_dequeue_all\<close>
  either marks the queue inactive, when it is empty, or claims the whole pending chain in FIFO
  order.\<close>

definition try_mark_inactive_or_dequeue_all ::
    "AtomicIntrusiveQueue \<Rightarrow> tag list \<times> AtomicIntrusiveQueue" where
  "try_mark_inactive_or_dequeue_all q =
     (if items q = [] then ([], q\<lparr>active := False\<rparr>) else (items q, q\<lparr>items := []\<rparr>))"

text \<open>The members of \<^verbatim>\<open>agrpc::GrpcContext\<close> that the implementation file reads and writes.
  The field names drop the trailing underscore of the members. \<open>self\<close> is the address of
  the context; \<open>completion_queue\<close> holds what the successive calls of \<^verbatim>\<open>AsyncNext\<close>
  are going to return. The intrusive queue and the intrusive list are lists in FIFO order:
  \<^verbatim>\<open>push_back\<close> and \<^verbatim>\<open>append\<close> add at the end, \<^verbatim>\<open>pop_front\<close> takes the head, and
  moving a queue out leaves an empty one behind.\<close>

record GrpcContext =
  self :: addr
  local_work_queue :: "tag list"
  remote_work_queue :: AtomicIntrusiveQueue
  check_remote_work :: bool
  outstanding_work :: int
  shutdown :: bool
  stopped :: bool
  notify_when_done_list :: "tag list"
  completion_queue :: "NextStatus list"

text \<open>The program state: the context, the thread-local pointer
  \<^verbatim>\<open>thread_local_grpc_context\<close> of every thread, and the trace.\<close>

record world =
  ctx :: GrpcContext
  thread_local_grpc_context :: "thread \<Rightarrow> addr option"
  trace :: "action list"

text \<open>\<^verbatim>\<open>operation->complete(result, grpc_context)\<close> is a virtual call into user code: the
  continuation of the operation at that address. It may change the context in any way and it
  may throw; the context it leaves behind is kept in both cases.\<close>

type_synonym handlers = "tag \<Rightarrow> OperationResult \<Rightarrow> GrpcContext \<Rightarrow> error option \<times> GrpcContext"

definition complete :: "handlers \<Rightarrow> tag \<Rightarrow> OperationResult \<Rightarrow> world \<Rightarrow> error option \<times> world" where
  "complete h op result w =
     (fst (h op result (ctx w)),
      w\<lparr>ctx := snd (h op result (ctx w)), trace := trace w @ [Complete op result]\<rparr>)"

subsection \<open>Bookkeeping\<close>

text \<open>Modelled from the spec: \<^verbatim>\<open>GrpcContext::work_started\<close> is defined in a file that is
  not among the sources. The spec has it increment the outstanding-work counter.\<close>

definition work_started :: "GrpcContext \<Rightarrow> GrpcContext" where
  "work_started g = g\<lparr>outstanding_work := outstanding_work g + 1\<rparr>"

text \<open>Modelled from the spec: \<^verbatim>\<open>GrpcContext::work_finished\<close> is defined in a file that is
  not among the sources. The spec has it decrement the outstanding-work counter.\<close>

definition work_finished :: "GrpcContext \<Rightarrow> GrpcContext" where
  "work_finished g = g\<lparr>outstanding_work := outstanding_work g - 1\<rparr>"

text \<open>Modelled from the spec: \<^verbatim>\<open>GrpcContext::is_stopped\<close> is defined in a file that is
  not among the sources. It reads the stopped flag.\<close>

definition is_stopped :: "GrpcContext \<Rightarrow> bool" where
  "is_stopped g = stopped g"

text \<open>\<^verbatim>\<open>WorkFinishedOnExitFunctor::operator()\<close>: what the scope guard
  \<^verbatim>\<open>WorkFinishedOnExit\<close> runs when its scope is left, by return or by exception.\<close>

definition WorkFinishedOnExitFunctor :: "world \<Rightarrow> world" where
  "WorkFinishedOnExitFunctor w =
     w\<lparr>ctx := work_finished (ctx w), trace := trace w @ [WorkFinished]\<rparr>"

definition IsGrpcContextStoppedPredicate :: "GrpcContext \<Rightarrow> bool" where
  "IsGrpcContextStoppedPredicate g = is_stopped g"

definition is_shutdown :: "GrpcContext \<Rightarrow> bool" where
  "is_shutdown g = shutdown g"

definition trigger_work_alarm :: "world \<Rightarrow> world" where
  "trigger_work_alarm w = w\<lparr>trace := trace w @ [AlarmSet TIME_ZERO HAS_REMOTE_WORK_TAG]\<rparr>"

subsection \<open>Submitting work\<close>

definition add_remote_operation :: "world \<Rightarrow> tag \<Rightarrow> world" where
  "add_remote_operation w op =
     (let r = enqueue (remote_work_queue (ctx w)) op;
          w' = w\<lparr>ctx := (ctx w)\<lparr>remote_work_queue := snd r\<rparr>\<rparr>
      in if fst r then trigger_work_alarm w' else w')"

definition add_local_operation :: "GrpcContext \<Rightarrow> tag \<Rightarrow> GrpcContext" where
  "add_local_operation g op = g\<lparr>local_work_queue := local_work_queue g @ [op]\<rparr>"

definition running_in_this_thread :: "world \<Rightarrow> thread \<Rightarrow> bool" where
  "running_in_this_thread w t = (Some (self (ctx w)) = thread_local_grpc_context w t)"

text \<open>\<open>t\<close> is the thread that makes the call.\<close>

definition add_operation :: "world \<Rightarrow> thread \<Rightarrow> tag \<Rightarrow> world" where
  "add_operation w t op =
     (if running_in_this_thread w t
      then w\<lparr>ctx := add_local_operation (ctx w) op\<rparr>
      else add_remote_operation w op)"

definition set_thread_local_grpc_context ::
    "world \<Rightarrow> thread \<Rightarrow> addr option \<Rightarrow> addr option \<times> world" where
  "set_thread_local_grpc_context w t p =
     (thread_local_grpc_context w t,
      w\<lparr>thread_local_grpc_context := (thread_local_grpc_context w)(t := p)\<rparr>)"

record ThreadLocalGrpcContextGuard =
  old_context :: "addr option"

definition ThreadLocalGrpcContextGuard_ctor ::
    "world \<Rightarrow> thread \<Rightarrow> ThreadLocalGrpcContextGuard \<times> world" where
  "ThreadLocalGrpcContextGuard_ctor w t =
     (let r = set_thread_local_grpc_context w t (Some (self (ctx w)))
      in (\<lparr>old_context = fst r\<rparr>, snd r))"

definition ThreadLocalGrpcContextGuard_dtor ::
    "ThreadLocalGrpcContextGuard \<Rightarrow> world \<Rightarrow> thread \<Rightarrow> world" where
  "ThreadLocalGrpcContextGuard_dtor guard w t =
     snd (set_thread_local_grpc_context w t (old_context guard))"

subsection \<open>The notify-when-done list\<close>


definition remove_notify_when_done_operation :: "GrpcContext \<Rightarrow> tag \<Rightarrow> GrpcContext" where
  "remove_notify_when_done_operation g implementation =
     g\<lparr>notify_when_done_list := remove1 implementation (notify_when_done_list g)\<rparr>"


subsection \<open>The run loop\<close>

definition move_remote_work_to_local_queue :: "GrpcContext \<Rightarrow> bool \<times> GrpcContext" where
  "move_remote_work_to_local_queue g =
     (let r = try_mark_inactive_or_dequeue_all (remote_work_queue g);
          g' = g\<lparr>remote_work_queue := snd r\<rparr>
      in if fst r = [] then (False, g')
         else (True, g'\<lparr>local_work_queue := local_work_queue g' @ fst r\<rparr>))"

text \<open>The loop of \<^verbatim>\<open>process_local_queue\<close> over the queue that was moved out of the
  context: every round sets \<open>processed\<close>, opens the scope guard, pops the front and completes
  it; the guard runs when the round ends and when the completion throws.\<close>

fun process_local_queue_loop ::
    "handlers \<Rightarrow> OperationResult \<Rightarrow> tag list \<Rightarrow> bool \<Rightarrow> world \<Rightarrow> (error + bool) \<times> world" where
  "process_local_queue_loop h result [] processed w = (Inr processed, w)"
| "process_local_queue_loop h result (operation # queue) processed w =
     (case complete h operation result w of
        (Some e, w') \<Rightarrow> (Inl e, WorkFinishedOnExitFunctor w')
      | (None, w') \<Rightarrow> process_local_queue_loop h result queue True (WorkFinishedOnExitFunctor w'))"

definition process_local_queue :: "handlers \<Rightarrow> world \<Rightarrow> InvokeHandler \<Rightarrow> (error + bool) \<times> world" where
  "process_local_queue h w invoke =
     (let result = (if NO = invoke then SHUTDOWN_NOT_OK else OK);
          queue = local_work_queue (ctx w)
      in process_local_queue_loop h result queue False
           (w\<lparr>ctx := (ctx w)\<lparr>local_work_queue := []\<rparr>\<rparr>))"

text \<open>\<^verbatim>\<open>cq->AsyncNext(&event.tag, &event.ok, deadline)\<close>: the next answer of the completion
  queue; a queue with nothing left to say has been shut down and drained.\<close>

definition CompletionQueue_AsyncNext :: "world \<Rightarrow> gpr_timespec \<Rightarrow> NextStatus \<times> world" where
  "CompletionQueue_AsyncNext w deadline =
     (case completion_queue (ctx w) of
        [] \<Rightarrow> (SHUTDOWN, w\<lparr>trace := trace w @ [AsyncNext deadline]\<rparr>)
      | s # rest \<Rightarrow>
          (s, w\<lparr>ctx := (ctx w)\<lparr>completion_queue := rest\<rparr>, trace := trace w @ [AsyncNext deadline]\<rparr>))"

text \<open>The event is returned only when the status is \<^verbatim>\<open>GOT_EVENT\<close>, the one case in which
  the caller reads it.\<close>

definition get_next_event :: "world \<Rightarrow> gpr_timespec \<Rightarrow> GrpcCompletionQueueEvent option \<times> world" where
  "get_next_event w deadline =
     (case CompletionQueue_AsyncNext w deadline of
        (GOT_EVENT t ok, w') \<Rightarrow> (Some \<lparr>ev_tag = t, ev_ok = ok\<rparr>, w')
      | (SHUTDOWN, w') \<Rightarrow> (None, w')
      | (TIMEOUT, w') \<Rightarrow> (None, w'))"

definition process_grpc_tag :: "handlers \<Rightarrow> tag \<Rightarrow> OperationResult \<Rightarrow> world \<Rightarrow> error option \<times> world" where
  "process_grpc_tag h t result w =
     (case complete h t result w of (e, w') \<Rightarrow> (e, WorkFinishedOnExitFunctor w'))"

definition handle_next_completion_queue_event ::
    "handlers \<Rightarrow> world \<Rightarrow> gpr_timespec \<Rightarrow> InvokeHandler \<Rightarrow> (error + bool) \<times> world" where
  "handle_next_completion_queue_event h w deadline invoke =
     (case get_next_event w deadline of
        (Some event, w') \<Rightarrow>
          if HAS_REMOTE_WORK_TAG = ev_tag event
          then (Inr True, w'\<lparr>ctx := (ctx w')\<lparr>check_remote_work := True\<rparr>\<rparr>)
          else
            let result =
                  (if NO = invoke
                   then (if ev_ok event then SHUTDOWN_OK else SHUTDOWN_NOT_OK)
                   else (if ev_ok event then OK else NOT_OK))
            in (case process_grpc_tag h (ev_tag event) result w' of
                  (Some e, w'') \<Rightarrow> (Inl e, w'')
                | (None, w'') \<Rightarrow> (Inr True, w''))
      | (None, w') \<Rightarrow> (Inr False, w'))"

definition do_one ::
    "handlers \<Rightarrow> world \<Rightarrow> gpr_timespec \<Rightarrow> InvokeHandler \<Rightarrow> (GrpcContext \<Rightarrow> bool)
       \<Rightarrow> (error + bool) \<times> world" where
  "do_one h w deadline invoke stop_predicate =
     (let r1 = (if check_remote_work (ctx w)
                then (let m = move_remote_work_to_local_queue (ctx w)
                      in (fst m, w\<lparr>ctx := (snd m)\<lparr>check_remote_work := fst m\<rparr>\<rparr>))
                else (False, w));
          check_remote_work' = fst r1
      in case process_local_queue h (snd r1) invoke of
           (Inl e, w2) \<Rightarrow> (Inl e, w2)
         | (Inr processed, w2) \<Rightarrow>
             let is_more_completed_work_pending =
                   (check_remote_work' \<or> local_work_queue (ctx w2) \<noteq> [])
             in if \<not> is_more_completed_work_pending \<and> stop_predicate (ctx w2)
                then (Inr processed, w2)
                else
                  (case handle_next_completion_queue_event h w2
                          (if is_more_completed_work_pending then TIME_ZERO else deadline) invoke of
                     (Inl e, w3) \<Rightarrow> (Inl e, w3)
                   | (Inr handled_event, w3) \<Rightarrow> (Inr (processed \<or> handled_event), w3)))"

text \<open>The three-argument calls of \<^verbatim>\<open>do_one\<close> use the default stop predicate of its
  declaration, \<^verbatim>\<open>IsGrpcContextStoppedPredicate\<close>.\<close>

definition do_one_if_not_stopped :: "handlers \<Rightarrow> world \<Rightarrow> gpr_timespec \<Rightarrow> (error + bool) \<times> world" where
  "do_one_if_not_stopped h w deadline =
     (if is_stopped (ctx w) then (Inr False, w)
      else do_one h w deadline YES IsGrpcContextStoppedPredicate)"

definition do_one_completion_queue :: "handlers \<Rightarrow> world \<Rightarrow> gpr_timespec \<Rightarrow> (error + bool) \<times> world" where
  "do_one_completion_queue h w deadline = handle_next_completion_queue_event h w deadline YES"

definition do_one_completion_queue_if_not_stopped ::
    "handlers \<Rightarrow> world \<Rightarrow> gpr_timespec \<Rightarrow> (error + bool) \<times> world" where
  "do_one_completion_queue_if_not_stopped h w deadline =
     (if is_stopped (ctx w) then (Inr False, w)
      else handle_next_completion_queue_event h w deadline YES)"

subsection \<open>The auto-cancelling reference to a client context\<close>

text \<open>Modelled from the spec: the class \<^verbatim>\<open>AtomicTaggedPtr\<close> is not among the sources. The
  spec describes a tagged reference, a context pointer with two bookkeeping bits, that is null
  once the call has finished; \<^verbatim>\<open>clear\<close> hands out the pointer and leaves the null
  reference behind.\<close>

record AtomicTaggedPtr =
  ptr :: "addr option"
  bit0 :: bool
  bit1 :: bool

text \<open>Modelled from the spec: the operations of \<^verbatim>\<open>AtomicTaggedPtr\<close>, which is not among
  the sources. A tagged pointer made from a plain pointer has both bits clear;
  \<^verbatim>\<open>clear\<close> returns the pointer and leaves the null reference; \<^verbatim>\<open>get\<close> reads the
  pointer, \<^verbatim>\<open>is_null\<close> tests it, \<^verbatim>\<open>has_bit\<close> and \<^verbatim>\<open>set_bit\<close> read and set a
  bookkeeping bit.\<close>

definition AtomicTaggedPtr_of :: "addr option \<Rightarrow> AtomicTaggedPtr" where
  "AtomicTaggedPtr_of p = \<lparr>ptr = p, bit0 = False, bit1 = False\<rparr>"

definition AtomicTaggedPtr_clear :: "AtomicTaggedPtr \<Rightarrow> addr option \<times> AtomicTaggedPtr" where
  "AtomicTaggedPtr_clear p = (ptr p, AtomicTaggedPtr_of None)"

definition AtomicTaggedPtr_get :: "AtomicTaggedPtr \<Rightarrow> addr option" where
  "AtomicTaggedPtr_get p = ptr p"

definition AtomicTaggedPtr_is_null :: "AtomicTaggedPtr \<Rightarrow> bool" where
  "AtomicTaggedPtr_is_null p = (ptr p = None)"

definition AtomicTaggedPtr_has_bit :: "nat \<Rightarrow> AtomicTaggedPtr \<Rightarrow> bool" where
  "AtomicTaggedPtr_has_bit b p = (if b = 0 then bit0 p else bit1 p)"

definition AtomicTaggedPtr_set_bit :: "nat \<Rightarrow> AtomicTaggedPtr \<Rightarrow> AtomicTaggedPtr" where
  "AtomicTaggedPtr_set_bit b p = (if b = 0 then p\<lparr>bit0 := True\<rparr> else p\<lparr>bit1 := True\<rparr>)"

text \<open>\<^verbatim>\<open>class AutoCancelClientContextRef\<close>. Its copy constructor and copy assignment are
  deleted; its member \<^verbatim>\<open>context_\<close> is the field \<open>tagged_context\<close>.
  \<^verbatim>\<open>grpc::ClientContext::TryCancel\<close> is a call into the gRPC library: the
  addresses of the client contexts it has been called on are kept, in order, in a list.\<close>

record AutoCancelClientContextRef =
  tagged_context :: AtomicTaggedPtr

definition AutoCancelClientContextRef_default :: AutoCancelClientContextRef where
  "AutoCancelClientContextRef_default = \<lparr>tagged_context = AtomicTaggedPtr_of None\<rparr>"

definition AutoCancelClientContextRef_of :: "addr \<Rightarrow> AutoCancelClientContextRef" where
  "AutoCancelClientContextRef_of c = \<lparr>tagged_context = AtomicTaggedPtr_of (Some c)\<rparr>"

text \<open>The move constructor: the new reference and what is left of the source.\<close>

definition AutoCancelClientContextRef_move ::
    "AutoCancelClientContextRef \<Rightarrow> AutoCancelClientContextRef \<times> AutoCancelClientContextRef" where
  "AutoCancelClientContextRef_move other =
     (\<lparr>tagged_context = AtomicTaggedPtr_of (fst (AtomicTaggedPtr_clear (tagged_context other)))\<rparr>,
      other\<lparr>tagged_context := snd (AtomicTaggedPtr_clear (tagged_context other))\<rparr>)"

definition cancel :: "AutoCancelClientContextRef \<Rightarrow> addr list \<Rightarrow> addr list" where
  "cancel r try_cancelled =
     (case AtomicTaggedPtr_get (tagged_context r) of
        Some context_ptr \<Rightarrow> try_cancelled @ [context_ptr]
      | None \<Rightarrow> try_cancelled)"

definition AutoCancelClientContextRef_dtor :: "AutoCancelClientContextRef \<Rightarrow> addr list \<Rightarrow> addr list" where
  "AutoCancelClientContextRef_dtor r try_cancelled = cancel r try_cancelled"

text \<open>Move assignment compares the addresses of the two references, so it works on a store
  of references.\<close>

definition AutoCancelClientContextRef_move_assign ::
    "addr \<Rightarrow> addr \<Rightarrow> (addr \<Rightarrow> AutoCancelClientContextRef) \<times> addr list
       \<Rightarrow> (addr \<Rightarrow> AutoCancelClientContextRef) \<times> addr list" where
  "AutoCancelClientContextRef_move_assign this other s =
     (if this \<noteq> other
      then
        let refs = fst s;
            c = AtomicTaggedPtr_clear (tagged_context (refs other))
        in (refs(other := (refs other)\<lparr>tagged_context := snd c\<rparr>,
                 this := (refs this)\<lparr>tagged_context := AtomicTaggedPtr_of (fst c)\<rparr>),
            cancel (refs this) (snd s))
      else s)"

definition clear :: "AutoCancelClientContextRef \<Rightarrow> AutoCancelClientContextRef" where
  "clear r = r\<lparr>tagged_context := snd (AtomicTaggedPtr_clear (tagged_context r))\<rparr>"

definition is_null :: "AutoCancelClientContextRef \<Rightarrow> bool" where
  "is_null r = AtomicTaggedPtr_is_null (tagged_context r)"

definition has_bit :: "nat \<Rightarrow> AutoCancelClientContextRef \<Rightarrow> bool" where
  "has_bit b r = AtomicTaggedPtr_has_bit b (tagged_context r)"

definition set_bit :: "nat \<Rightarrow> AutoCancelClientContextRef \<Rightarrow> AutoCancelClientContextRef" where
  "set_bit b r = r\<lparr>tagged_context := AtomicTaggedPtr_set_bit b (tagged_context r)\<rparr>"

text \<open>\<^verbatim>\<open>class RPCClientContextBase\<close>.\<close>

record RPCClientContextBase =
  client_context :: AutoCancelClientContextRef

definition is_finished :: "'a RPCClientContextBase_scheme \<Rightarrow> bool" where
  "is_finished rpc = is_null (client_context rpc)"

definition set_finished :: "'a RPCClientContextBase_scheme \<Rightarrow> 'a RPCClientContextBase_scheme" where
  "set_finished rpc = rpc\<lparr>client_context := clear (client_context rpc)\<rparr>"

definition RPCClientContextBase_cancel :: "'a RPCClientContextBase_scheme \<Rightarrow> addr list \<Rightarrow> addr list" where
  "RPCClientContextBase_cancel rpc try_cancelled = cancel (client_context rpc) try_cancelled"

definition is_writes_done :: "'a RPCClientContextBase_scheme \<Rightarrow> bool" where
  "is_writes_done rpc = has_bit 0 (client_context rpc)"

definition set_writes_done :: "'a RPCClientContextBase_scheme \<Rightarrow> 'a RPCClientContextBase_scheme" where
  "set_writes_done rpc = rpc\<lparr>client_context := set_bit 0 (client_context rpc)\<rparr>"

subsection \<open>Finishing a call\<close>

text \<open>Modelled from the spec: the call object and its \<^verbatim>\<open>finish\<close> step are not among the
  sources, only the base class above and the tests that call \<^verbatim>\<open>finish\<close> twice. The spec
  has the call hold the context reference and the status of the call, and has a second
  \<^verbatim>\<open>finish\<close> return the cached status without issuing work again. A status is its gRPC
  status code. \<open>reported\<close> is the status that the transport delivers when a finish step
  completes; the finish steps issued to the wire are kept in a list, each with the client
  context it was issued for.\<close>

type_synonym Status = nat

record ClientRPC = RPCClientContextBase +
  status :: Status

datatype wire_step = FinishStep addr

text \<open>Modelled from the spec: \<^verbatim>\<open>finish\<close> on a call that has finished returns the cached
  status without issuing work; on a call that has not, it issues the finish step, caches the
  status that the transport reports and marks the call finished.\<close>

definition finish :: "ClientRPC \<Rightarrow> Status \<Rightarrow> wire_step list \<Rightarrow> Status \<times> ClientRPC \<times> wire_step list" where
  "finish rpc reported wire =
     (case AtomicTaggedPtr_get (tagged_context (client_context rpc)) of
        None \<Rightarrow> (status rpc, rpc, wire)
      | Some c \<Rightarrow> (reported, set_finished (rpc\<lparr>status := reported\<rparr>), wire @ [FinishStep c]))"

subsection \<open>Reading a trace\<close>

text \<open>The completions on a trace: which operation was completed with which result.\<close>

fun completions :: "action list \<Rightarrow> (tag \<times> OperationResult) list" where
  "completions [] = []"
| "completions (Complete t r # as) = (t, r) # completions as"
| "completions (a # as) = completions as"

text \<open>What one dispatch under the scope guard leaves on the trace, for a run of operations
  completed with the same result.\<close>

definition dispatched :: "OperationResult \<Rightarrow> tag list \<Rightarrow> action list" where
  "dispatched result ops = concat (map (\<lambda>op. [Complete op result, WorkFinished]) ops)"

text \<open>The context that one dispatch under the scope guard leaves: the one the continuation
  left, with the guard's \<^verbatim>\<open>work_finished\<close> applied. Folded over a run of operations it
  gives the context after each of them.\<close>

definition after_dispatch :: "handlers \<Rightarrow> OperationResult \<Rightarrow> GrpcContext \<Rightarrow> tag \<Rightarrow> GrpcContext" where
  "after_dispatch h result g op = work_finished (snd (h op result g))"


subsection \<open>Example continuations and states\<close>

text \<open>A continuation that does nothing; one that, for the operations below 10, submits a
  follow-up operation from the engine's own thread; one that throws at operation 2; and one
  that starts a unit of work.\<close>

definition quiet :: handlers where
  "quiet op result g = (None, g)"


definition throwing_at_2 :: handlers where
  "throwing_at_2 op result g = (if op = 2 then Some (ContinuationFault 1) else None, g)"

definition starting_work :: handlers where
  "starting_work op result g = (None, work_started g)"


definition idle_context :: GrpcContext where
  "idle_context =
     \<lparr>self = 100, local_work_queue = [], remote_work_queue = \<lparr>items = [], active = False\<rparr>,
      check_remote_work = False, outstanding_work = 3, shutdown = False, stopped = False,
      notify_when_done_list = [], completion_queue = []\<rparr>"

definition idle_world :: world where
  "idle_world = \<lparr>ctx = idle_context, thread_local_grpc_context = (\<lambda>t. None), trace = []\<rparr>"

definition queued_world :: world where
  "queued_world = idle_world\<lparr>ctx := idle_context\<lparr>local_work_queue := [1, 2, 3]\<rparr>\<rparr>"

text \<open>An event for operation 7 is waiting on the completion queue; the same with the
  shutdown flag set; the wake event is waiting; the context is stopped.\<close>

definition event_world :: world where
  "event_world = idle_world\<lparr>ctx := idle_context\<lparr>completion_queue := [GOT_EVENT 7 True]\<rparr>\<rparr>"

definition shut_down_world :: world where
  "shut_down_world =
     idle_world\<lparr>ctx := idle_context\<lparr>shutdown := True, completion_queue := [GOT_EVENT 7 True]\<rparr>\<rparr>"

definition wake_world :: world where
  "wake_world =
     idle_world\<lparr>ctx := idle_context\<lparr>completion_queue := [GOT_EVENT HAS_REMOTE_WORK_TAG True]\<rparr>\<rparr>"



text \<open>Thread 1 has entered the run loop of the context; thread 2 runs the engine at
  address 200; three calls are registered for the done notification.\<close>

definition running_world :: world where
  "running_world = snd (ThreadLocalGrpcContextGuard_ctor idle_world 1)"

definition other_engine_world :: world where
  "other_engine_world = idle_world\<lparr>thread_local_grpc_context := (\<lambda>t. None)(2 := Some 200)\<rparr>"


text \<open>A call on the client context at address 50 that has not finished, and a store with
  two references.\<close>

definition open_call :: ClientRPC where
  "open_call = \<lparr>client_context = AutoCancelClientContextRef_of 50, status = 0\<rparr>"

definition two_refs :: "addr \<Rightarrow> AutoCancelClientContextRef" where
  "two_refs = (\<lambda>a. AutoCancelClientContextRef_default)
                (1 := AutoCancelClientContextRef_of 50, 2 := AutoCancelClientContextRef_of 60)"

section \<open>Properties\<close>

subsection \<open>Traces of the dispatch\<close>

lemma complete_trace:
  "trace (snd (complete h op r w)) = trace w @ [Complete op r]"
  by (simp add: complete_def)

lemma WorkFinishedOnExitFunctor_trace:
  "trace (WorkFinishedOnExitFunctor w) = trace w @ [WorkFinished]"
  by (simp add: WorkFinishedOnExitFunctor_def)

lemma dispatched_Nil: "dispatched r [] = []"
  by (simp add: dispatched_def)

lemma dispatched_Cons: "dispatched r (op # ops) = Complete op r # WorkFinished # dispatched r ops"
  by (simp add: dispatched_def)

lemma completions_append: "completions (xs @ ys) = completions xs @ completions ys"
  by (induction xs rule: completions.induct) simp_all

lemma completions_dispatched: "completions (dispatched r ops) = map (\<lambda>op. (op, r)) ops"
  by (induction ops) (simp_all add: dispatched_Nil dispatched_Cons)

text \<open>The loop over the snapshot dispatches a prefix of it, the whole of it unless a
  continuation throws; every dispatch is a completion followed by the guard's
  \<^verbatim>\<open>work_finished\<close>, also the one that throws.\<close>

lemma process_local_queue_loop_trace:
  "\<exists>n\<le>length q.
      trace (snd (process_local_queue_loop h r q p w)) = trace w @ dispatched r (take n q)
    \<and> (\<forall>e. fst (process_local_queue_loop h r q p w) = Inl e \<longrightarrow> 0 < n)
    \<and> (\<forall>b. fst (process_local_queue_loop h r q p w) = Inr b \<longrightarrow>
           n = length q \<and> b = (p \<or> q \<noteq> []))
    \<and> ((\<forall>op g. outstanding_work (snd (h op r g)) = outstanding_work g) \<longrightarrow>
         outstanding_work (ctx (snd (process_local_queue_loop h r q p w)))
           = outstanding_work (ctx w) - int n)"
proof (induction q arbitrary: p w)
  case Nil
  then show ?case by (simp add: dispatched_Nil)
next
  case (Cons op q)
  show ?case
  proof (cases "fst (h op r (ctx w))")
    case None
    let ?w' = "WorkFinishedOnExitFunctor (snd (complete h op r w))"
    from Cons.IH [of True ?w'] obtain n where n: "n \<le> length q"
      "trace (snd (process_local_queue_loop h r q True ?w')) = trace ?w' @ dispatched r (take n q)"
      "\<forall>b. fst (process_local_queue_loop h r q True ?w') = Inr b \<longrightarrow> n = length q \<and> b"
      "(\<forall>op g. outstanding_work (snd (h op r g)) = outstanding_work g) \<longrightarrow>
         outstanding_work (ctx (snd (process_local_queue_loop h r q True ?w')))
           = outstanding_work (ctx ?w') - int n"
      by blast
    have step: "process_local_queue_loop h r (op # q) p w = process_local_queue_loop h r q True ?w'"
      using None by (simp add: complete_def split: prod.splits)
    have cnt: "outstanding_work (ctx ?w') = outstanding_work (snd (h op r (ctx w))) - 1"
      by (simp add: WorkFinishedOnExitFunctor_def work_finished_def complete_def)
    show ?thesis
      apply (rule exI [of _ "Suc n"])
      using n None
      by (auto simp add: step cnt dispatched_Cons WorkFinishedOnExitFunctor_trace complete_trace
            simp del: process_local_queue_loop.simps)
  next
    case (Some e)
    show ?thesis
      apply (rule exI [of _ "Suc 0"])
      using Some
      by (simp add: complete_def dispatched_Cons dispatched_Nil WorkFinishedOnExitFunctor_def
            work_finished_def)
  qed
qed

lemma process_local_queue_trace:
  "\<exists>n\<le>length (local_work_queue (ctx w)).
      trace (snd (process_local_queue h w invoke))
        = trace w @ dispatched (if invoke = NO then SHUTDOWN_NOT_OK else OK)
                      (take n (local_work_queue (ctx w)))
    \<and> (\<forall>e. fst (process_local_queue h w invoke) = Inl e \<longrightarrow> 0 < n)
    \<and> (\<forall>b. fst (process_local_queue h w invoke) = Inr b \<longrightarrow>
           n = length (local_work_queue (ctx w)) \<and> b = (local_work_queue (ctx w) \<noteq> []))
    \<and> ((\<forall>op g. outstanding_work (snd (h op (if invoke = NO then SHUTDOWN_NOT_OK else OK) g))
                  = outstanding_work g) \<longrightarrow>
         outstanding_work (ctx (snd (process_local_queue h w invoke)))
           = outstanding_work (ctx w) - int n)"
proof -
  let ?r = "if invoke = NO then SHUTDOWN_NOT_OK else OK"
  let ?w0 = "w\<lparr>ctx := (ctx w)\<lparr>local_work_queue := []\<rparr>\<rparr>"
  have eq: "process_local_queue h w invoke
              = process_local_queue_loop h ?r (local_work_queue (ctx w)) False ?w0"
    by (cases invoke) (simp_all add: process_local_queue_def Let_def)
  have w0: "trace ?w0 = trace w" "outstanding_work (ctx ?w0) = outstanding_work (ctx w)"
    by simp_all
  show ?thesis
    unfolding eq
    using process_local_queue_loop_trace [of "local_work_queue (ctx w)" h ?r False ?w0]
    unfolding w0 by (cases invoke) simp_all
qed

text \<open>The loop over the snapshot, exactly: when no continuation throws in the context it is
  called in, the loop completes the whole snapshot and returns; when the continuation of the
  operation at position \<open>k\<close> is the first to throw, the loop completes the operations up to
  and including that one and hands on the fault.\<close>

lemma process_local_queue_loop_returns:
  "(\<forall>j<length q. fst (h (q ! j) r (foldl (after_dispatch h r) (ctx w) (take j q))) = None) \<Longrightarrow>
   process_local_queue_loop h r q p w =
     (Inr (p \<or> q \<noteq> []),
      w\<lparr>ctx := foldl (after_dispatch h r) (ctx w) q, trace := trace w @ dispatched r q\<rparr>)"
proof (induction q arbitrary: p w)
  case Nil
  then show ?case by (simp add: dispatched_Nil)
next
  case (Cons op q)
  let ?w' = "WorkFinishedOnExitFunctor (snd (complete h op r w))"
  have c: "ctx ?w' = after_dispatch h r (ctx w) op" "trace ?w' = trace w @ [Complete op r, WorkFinished]"
    by (simp_all add: WorkFinishedOnExitFunctor_def complete_def after_dispatch_def)
  have w': "?w' = w\<lparr>ctx := after_dispatch h r (ctx w) op, trace := trace w @ [Complete op r, WorkFinished]\<rparr>"
    by (simp add: WorkFinishedOnExitFunctor_def complete_def after_dispatch_def)
  from Cons.prems have h0: "fst (h op r (ctx w)) = None"
    and hs: "\<forall>j<length q. fst (h (q ! j) r (foldl (after_dispatch h r) (ctx ?w') (take j q))) = None"
    by (auto simp add: All_less_Suc2 c)
  have step: "process_local_queue_loop h r (op # q) p w = process_local_queue_loop h r q True ?w'"
    using h0 by (simp add: complete_def split: prod.splits)
  show ?case
    unfolding step Cons.IH [OF hs]
    by (simp add: w' dispatched_Cons)
qed

lemma process_local_queue_loop_throws:
  "k < length q \<Longrightarrow>
   (\<forall>j<k. fst (h (q ! j) r (foldl (after_dispatch h r) (ctx w) (take j q))) = None) \<Longrightarrow>
   fst (h (q ! k) r (foldl (after_dispatch h r) (ctx w) (take k q))) = Some e \<Longrightarrow>
   process_local_queue_loop h r q p w =
     (Inl e,
      w\<lparr>ctx := foldl (after_dispatch h r) (ctx w) (take (Suc k) q),
        trace := trace w @ dispatched r (take (Suc k) q)\<rparr>)"
proof (induction q arbitrary: p w k)
  case Nil
  then show ?case by simp
next
  case (Cons op q)
  let ?w' = "WorkFinishedOnExitFunctor (snd (complete h op r w))"
  have w': "?w' = w\<lparr>ctx := after_dispatch h r (ctx w) op, trace := trace w @ [Complete op r, WorkFinished]\<rparr>"
    by (simp add: WorkFinishedOnExitFunctor_def complete_def after_dispatch_def)
  show ?case
  proof (cases k)
    case 0
    with Cons.prems have "fst (h op r (ctx w)) = Some e" by simp
    then show ?thesis
      using 0
      by (simp add: complete_def WorkFinishedOnExitFunctor_def after_dispatch_def dispatched_Cons
            dispatched_Nil split: prod.splits)
  next
    case (Suc k')
    from Cons.prems Suc have h0: "fst (h op r (ctx w)) = None"
      and k': "k' < length q"
      and hs: "\<forall>j<k'. fst (h (q ! j) r (foldl (after_dispatch h r) (ctx ?w') (take j q))) = None"
      and he: "fst (h (q ! k') r (foldl (after_dispatch h r) (ctx ?w') (take k' q))) = Some e"
      by (auto simp add: All_less_Suc2 w')
    have step: "process_local_queue_loop h r (op # q) p w = process_local_queue_loop h r q True ?w'"
      using h0 by (simp add: complete_def split: prod.splits)
    show ?thesis
      unfolding step Cons.IH [OF k' hs he] Suc
      by (simp add: w' dispatched_Cons)
  qed
qed


lemma process_local_queue_eq_loop:
  "process_local_queue h w invoke =
     process_local_queue_loop h (if invoke = NO then SHUTDOWN_NOT_OK else OK)
       (local_work_queue (ctx w)) False (w\<lparr>ctx := (ctx w)\<lparr>local_work_queue := []\<rparr>\<rparr>)"
  by (cases invoke) (simp_all add: process_local_queue_def Let_def)

lemma process_local_queue_returns:
  "(\<forall>j<length (local_work_queue (ctx w)).
       fst (h (local_work_queue (ctx w) ! j) (if invoke = NO then SHUTDOWN_NOT_OK else OK)
              (foldl (after_dispatch h (if invoke = NO then SHUTDOWN_NOT_OK else OK))
                 ((ctx w)\<lparr>local_work_queue := []\<rparr>) (take j (local_work_queue (ctx w))))) = None) \<Longrightarrow>
   process_local_queue h w invoke =
     (Inr (local_work_queue (ctx w) \<noteq> []),
      w\<lparr>ctx := foldl (after_dispatch h (if invoke = NO then SHUTDOWN_NOT_OK else OK))
                 ((ctx w)\<lparr>local_work_queue := []\<rparr>) (local_work_queue (ctx w)),
        trace := trace w @ dispatched (if invoke = NO then SHUTDOWN_NOT_OK else OK)
                             (local_work_queue (ctx w))\<rparr>)"
  using process_local_queue_loop_returns
          [of "local_work_queue (ctx w)" h "if invoke = NO then SHUTDOWN_NOT_OK else OK"
              "w\<lparr>ctx := (ctx w)\<lparr>local_work_queue := []\<rparr>\<rparr>" False]
  by (simp add: process_local_queue_eq_loop)

lemma process_local_queue_throws:
  "k < length (local_work_queue (ctx w)) \<Longrightarrow>
   (\<forall>j<k. fst (h (local_work_queue (ctx w) ! j) (if invoke = NO then SHUTDOWN_NOT_OK else OK)
              (foldl (after_dispatch h (if invoke = NO then SHUTDOWN_NOT_OK else OK))
                 ((ctx w)\<lparr>local_work_queue := []\<rparr>) (take j (local_work_queue (ctx w))))) = None) \<Longrightarrow>
   fst (h (local_work_queue (ctx w) ! k) (if invoke = NO then SHUTDOWN_NOT_OK else OK)
              (foldl (after_dispatch h (if invoke = NO then SHUTDOWN_NOT_OK else OK))
                 ((ctx w)\<lparr>local_work_queue := []\<rparr>) (take k (local_work_queue (ctx w))))) = Some e \<Longrightarrow>
   process_local_queue h w invoke =
     (Inl e,
      w\<lparr>ctx := foldl (after_dispatch h (if invoke = NO then SHUTDOWN_NOT_OK else OK))
                 ((ctx w)\<lparr>local_work_queue := []\<rparr>) (take (Suc k) (local_work_queue (ctx w))),
        trace := trace w @ dispatched (if invoke = NO then SHUTDOWN_NOT_OK else OK)
                             (take (Suc k) (local_work_queue (ctx w)))\<rparr>)"
  using process_local_queue_loop_throws
          [of k "local_work_queue (ctx w)" h "if invoke = NO then SHUTDOWN_NOT_OK else OK"
              "w\<lparr>ctx := (ctx w)\<lparr>local_work_queue := []\<rparr>\<rparr>" e False]
  by (simp add: process_local_queue_eq_loop)

lemma get_next_event_GOT_EVENT:
  "completion_queue (ctx w) = GOT_EVENT t ok # rest \<Longrightarrow>
   get_next_event w deadline =
     (Some \<lparr>ev_tag = t, ev_ok = ok\<rparr>,
      w\<lparr>ctx := (ctx w)\<lparr>completion_queue := rest\<rparr>, trace := trace w @ [AsyncNext deadline]\<rparr>)"
  by (simp add: get_next_event_def CompletionQueue_AsyncNext_def)

lemma process_grpc_tag_eq:
  "process_grpc_tag h t r w =
     (fst (h t r (ctx w)),
      w\<lparr>ctx := work_finished (snd (h t r (ctx w))),
        trace := trace w @ [Complete t r, WorkFinished]\<rparr>)"
  by (simp add: process_grpc_tag_def complete_def WorkFinishedOnExitFunctor_def)


subsection \<open>Draining the local queue\<close>

text \<open>C10, as the code has it: with handler invocation disabled (\<^verbatim>\<open>InvokeHandler::NO\<close>,
  the drain of the shutdown phase) every operation that \<^verbatim>\<open>process_local_queue\<close>
  completes is completed with \<^verbatim>\<open>SHUTDOWN_NOT_OK\<close>, and with invocation enabled with
  \<^verbatim>\<open>OK\<close>, whatever the operation is. When no continuation throws, every queued
  operation is completed, in queue order, each in the context the one before it left, and
  the call returns. When the continuation of the operation at position \<open>k\<close> is the first to
  throw, the operations up to and including that one are completed, the operations queued
  behind it are not, and the fault leaves \<^verbatim>\<open>process_local_queue\<close>.\<close>

theorem process_local_queue_uniform_result:
  "(let result = (if invoke = NO then SHUTDOWN_NOT_OK else OK);
        queue = local_work_queue (ctx w);
        before = (\<lambda>j. foldl (after_dispatch h result) ((ctx w)\<lparr>local_work_queue := []\<rparr>) (take j queue))
    in ((\<forall>j<length queue. fst (h (queue ! j) result (before j)) = None) \<longrightarrow>
          process_local_queue h w invoke =
            (Inr (queue \<noteq> []),
             w\<lparr>ctx := before (length queue), trace := trace w @ dispatched result queue\<rparr>))
     \<and> (\<forall>k e. k < length queue
               \<and> (\<forall>j<k. fst (h (queue ! j) result (before j)) = None)
               \<and> fst (h (queue ! k) result (before k)) = Some e \<longrightarrow>
          process_local_queue h w invoke =
            (Inl e,
             w\<lparr>ctx := before (Suc k), trace := trace w @ dispatched result (take (Suc k) queue)\<rparr>)))
   \<and> (\<exists>n\<le>length (local_work_queue (ctx w)).
        completions (trace (snd (process_local_queue h w invoke)))
          = completions (trace w)
            @ map (\<lambda>op. (op, if invoke = NO then SHUTDOWN_NOT_OK else OK))
                (take n (local_work_queue (ctx w)))
        \<and> (\<forall>b. fst (process_local_queue h w invoke) = Inr b \<longrightarrow> n = length (local_work_queue (ctx w))))"
proof
  show "let result = (if invoke = NO then SHUTDOWN_NOT_OK else OK);
        queue = local_work_queue (ctx w);
        before = (\<lambda>j. foldl (after_dispatch h result) ((ctx w)\<lparr>local_work_queue := []\<rparr>) (take j queue))
    in ((\<forall>j<length queue. fst (h (queue ! j) result (before j)) = None) \<longrightarrow>
          process_local_queue h w invoke =
            (Inr (queue \<noteq> []),
             w\<lparr>ctx := before (length queue), trace := trace w @ dispatched result queue\<rparr>))
     \<and> (\<forall>k e. k < length queue
               \<and> (\<forall>j<k. fst (h (queue ! j) result (before j)) = None)
               \<and> fst (h (queue ! k) result (before k)) = Some e \<longrightarrow>
          process_local_queue h w invoke =
            (Inl e,
             w\<lparr>ctx := before (Suc k), trace := trace w @ dispatched result (take (Suc k) queue)\<rparr>))"
    unfolding Let_def
    using process_local_queue_returns [of w h invoke] process_local_queue_throws [of _ w h invoke]
    by simp
next
  from process_local_queue_trace [of w h invoke]
  obtain n where "n \<le> length (local_work_queue (ctx w))"
    "trace (snd (process_local_queue h w invoke))
       = trace w @ dispatched (if invoke = NO then SHUTDOWN_NOT_OK else OK)
                     (take n (local_work_queue (ctx w)))"
    "\<forall>b. fst (process_local_queue h w invoke) = Inr b \<longrightarrow> n = length (local_work_queue (ctx w))"
    by auto
  then show "\<exists>n\<le>length (local_work_queue (ctx w)).
        completions (trace (snd (process_local_queue h w invoke)))
          = completions (trace w)
            @ map (\<lambda>op. (op, if invoke = NO then SHUTDOWN_NOT_OK else OK))
                (take n (local_work_queue (ctx w)))
        \<and> (\<forall>b. fst (process_local_queue h w invoke) = Inr b \<longrightarrow> n = length (local_work_queue (ctx w)))"
    by (intro exI [of _ n]) (auto simp: completions_append completions_dispatched)
qed

theorem process_local_queue_uniform_result_witness:
  "process_local_queue starting_work queued_world NO =
     (Inr True,
      idle_world\<lparr>trace := [Complete 1 SHUTDOWN_NOT_OK, WorkFinished, Complete 2 SHUTDOWN_NOT_OK,
                            WorkFinished, Complete 3 SHUTDOWN_NOT_OK, WorkFinished]\<rparr>)
   \<and> process_local_queue starting_work queued_world YES =
     (Inr True,
      idle_world\<lparr>trace := [Complete 1 OK, WorkFinished, Complete 2 OK, WorkFinished,
                            Complete 3 OK, WorkFinished]\<rparr>)
   \<and> process_local_queue throwing_at_2 queued_world YES =
     (Inl (ContinuationFault 1),
      idle_world\<lparr>ctx := idle_context\<lparr>outstanding_work := 1\<rparr>,
        trace := [Complete 1 OK, WorkFinished, Complete 2 OK, WorkFinished]\<rparr>)"
proof -
  note defs = queued_world_def idle_world_def idle_context_def after_dispatch_def
    starting_work_def throwing_at_2_def work_finished_def work_started_def dispatched_def
  have a: "process_local_queue starting_work queued_world NO =
     (Inr True,
      idle_world\<lparr>trace := [Complete 1 SHUTDOWN_NOT_OK, WorkFinished, Complete 2 SHUTDOWN_NOT_OK,
                            WorkFinished, Complete 3 SHUTDOWN_NOT_OK, WorkFinished]\<rparr>)"
    using process_local_queue_uniform_result [of NO queued_world starting_work, unfolded Let_def, THEN conjunct1, THEN conjunct1]
    by (simp add: defs)
  have b: "process_local_queue starting_work queued_world YES =
     (Inr True,
      idle_world\<lparr>trace := [Complete 1 OK, WorkFinished, Complete 2 OK, WorkFinished,
                            Complete 3 OK, WorkFinished]\<rparr>)"
    using process_local_queue_uniform_result [of YES queued_world starting_work, unfolded Let_def, THEN conjunct1, THEN conjunct1]
    by (simp add: defs)
  have c: "process_local_queue throwing_at_2 queued_world YES =
     (Inl (ContinuationFault 1),
      idle_world\<lparr>ctx := idle_context\<lparr>outstanding_work := 1\<rparr>,
        trace := [Complete 1 OK, WorkFinished, Complete 2 OK, WorkFinished]\<rparr>)"
    using process_local_queue_uniform_result [of YES queued_world throwing_at_2, unfolded Let_def, THEN conjunct1,
                THEN conjunct2, THEN spec, THEN spec, of "Suc 0" "ContinuationFault 1"]
    by (simp add: defs)
  from a b c show ?thesis by blast
qed

text \<open>With handler invocation disabled and the operations 1, 2 and 3 queued, the
  continuation of 2 throws: operation 3 is never completed.\<close>

theorem process_local_queue_stops_at_throw:
  "local_work_queue (ctx queued_world) = [1, 2, 3]
   \<and> fst (process_local_queue throwing_at_2 queued_world NO) = Inl (ContinuationFault 1)
   \<and> completions (trace (snd (process_local_queue throwing_at_2 queued_world NO)))
       = [(1, SHUTDOWN_NOT_OK), (2, SHUTDOWN_NOT_OK)]"
  by (simp add: process_local_queue_def queued_world_def idle_world_def idle_context_def
        throwing_at_2_def complete_def WorkFinishedOnExitFunctor_def work_finished_def)

text \<open>C5: every dispatch decrements the outstanding-work counter once, when the scope of
  that dispatch is left, and does so whether the continuation returns or throws.
  \<^verbatim>\<open>process_grpc_tag\<close> hands on the outcome of the continuation, a fault included,
  together with the context the continuation left, its counter lowered by one, the
  \<^verbatim>\<open>work_finished\<close> right behind the completion. \<^verbatim>\<open>process_local_queue\<close> leaves a
  \<^verbatim>\<open>work_finished\<close> behind each of the \<open>n\<close> completions it makes, the throwing one
  being the last of them, and lowers the counter by \<open>n\<close> when the continuations themselves
  leave it alone.\<close>

theorem work_finished_on_every_dispatch:
  "process_grpc_tag h t r w =
     (fst (h t r (ctx w)),
      w\<lparr>ctx := (snd (h t r (ctx w)))\<lparr>outstanding_work := outstanding_work (snd (h t r (ctx w))) - 1\<rparr>,
        trace := trace w @ [Complete t r, WorkFinished]\<rparr>)
   \<and> (\<exists>n\<le>length (local_work_queue (ctx w)).
        trace (snd (process_local_queue h w invoke))
          = trace w @ dispatched (if invoke = NO then SHUTDOWN_NOT_OK else OK)
                        (take n (local_work_queue (ctx w)))
      \<and> (\<forall>e. fst (process_local_queue h w invoke) = Inl e \<longrightarrow> 0 < n)
      \<and> (\<forall>b. fst (process_local_queue h w invoke) = Inr b \<longrightarrow> n = length (local_work_queue (ctx w)))
      \<and> ((\<forall>op g. outstanding_work (snd (h op (if invoke = NO then SHUTDOWN_NOT_OK else OK) g))
                    = outstanding_work g) \<longrightarrow>
           outstanding_work (ctx (snd (process_local_queue h w invoke)))
             = outstanding_work (ctx w) - int n))"
proof
  show "process_grpc_tag h t r w =
     (fst (h t r (ctx w)),
      w\<lparr>ctx := (snd (h t r (ctx w)))\<lparr>outstanding_work := outstanding_work (snd (h t r (ctx w))) - 1\<rparr>,
        trace := trace w @ [Complete t r, WorkFinished]\<rparr>)"
    by (simp add: process_grpc_tag_eq work_finished_def)
next
  from process_local_queue_trace [of w h invoke]
  show "\<exists>n\<le>length (local_work_queue (ctx w)).
        trace (snd (process_local_queue h w invoke))
          = trace w @ dispatched (if invoke = NO then SHUTDOWN_NOT_OK else OK)
                        (take n (local_work_queue (ctx w)))
      \<and> (\<forall>e. fst (process_local_queue h w invoke) = Inl e \<longrightarrow> 0 < n)
      \<and> (\<forall>b. fst (process_local_queue h w invoke) = Inr b \<longrightarrow> n = length (local_work_queue (ctx w)))
      \<and> ((\<forall>op g. outstanding_work (snd (h op (if invoke = NO then SHUTDOWN_NOT_OK else OK) g))
                    = outstanding_work g) \<longrightarrow>
           outstanding_work (ctx (snd (process_local_queue h w invoke)))
             = outstanding_work (ctx w) - int n)"
    by blast
qed

theorem work_finished_on_every_dispatch_witness:
  "process_grpc_tag throwing_at_2 2 OK idle_world =
     (Some (ContinuationFault 1),
      idle_world\<lparr>ctx := idle_context\<lparr>outstanding_work := 2\<rparr>,
        trace := [Complete 2 OK, WorkFinished]\<rparr>)
   \<and> fst (process_local_queue throwing_at_2 queued_world YES) = Inl (ContinuationFault 1)
   \<and> trace (snd (process_local_queue throwing_at_2 queued_world YES))
       = [Complete 1 OK, WorkFinished, Complete 2 OK, WorkFinished]
   \<and> outstanding_work (ctx (snd (process_local_queue throwing_at_2 queued_world YES))) = 1"
proof -
  have ev: "fst (process_local_queue throwing_at_2 queued_world YES) = Inl (ContinuationFault 1)"
    "trace (snd (process_local_queue throwing_at_2 queued_world YES))
       = [Complete 1 OK, WorkFinished, Complete 2 OK, WorkFinished]"
    "outstanding_work (ctx (snd (process_local_queue throwing_at_2 queued_world YES))) = 1"
    by (simp_all add: process_local_queue_def queued_world_def idle_world_def idle_context_def
          throwing_at_2_def complete_def WorkFinishedOnExitFunctor_def work_finished_def)
  from work_finished_on_every_dispatch [of throwing_at_2 2 OK idle_world YES] ev show ?thesis
    by (simp add: throwing_at_2_def idle_world_def idle_context_def)
qed

subsection \<open>Dispatching completion-queue events\<close>

text \<open>C1, as the code has it: for an event with a tag other than the wake tag,
  \<^verbatim>\<open>handle_next_completion_queue_event\<close> classifies the ok flag by its \<open>invoke\<close>
  argument and not by the shutdown flag of the context, which it never reads. Called with
  \<^verbatim>\<open>InvokeHandler::NO\<close> the result is \<^verbatim>\<open>SHUTDOWN_OK\<close> for ok and
  \<^verbatim>\<open>SHUTDOWN_NOT_OK\<close> for not ok; called with \<^verbatim>\<open>InvokeHandler::YES\<close> it is
  \<^verbatim>\<open>OK\<close> and \<^verbatim>\<open>NOT_OK\<close>. The completion of the operation is invoked once, with that
  result, on the context with the event taken off the queue.\<close>

theorem dispatch_classifies_by_invoke:
  assumes "completion_queue (ctx w) = GOT_EVENT t ok # rest" and "t \<noteq> HAS_REMOTE_WORK_TAG"
  shows "handle_next_completion_queue_event h w deadline NO =
           ((case fst (h t (if ok then SHUTDOWN_OK else SHUTDOWN_NOT_OK)
                          ((ctx w)\<lparr>completion_queue := rest\<rparr>)) of
               None \<Rightarrow> Inr True | Some e \<Rightarrow> Inl e),
            w\<lparr>ctx := work_finished (snd (h t (if ok then SHUTDOWN_OK else SHUTDOWN_NOT_OK)
                                           ((ctx w)\<lparr>completion_queue := rest\<rparr>))),
              trace := trace w @ [AsyncNext deadline,
                         Complete t (if ok then SHUTDOWN_OK else SHUTDOWN_NOT_OK), WorkFinished]\<rparr>)
       \<and> handle_next_completion_queue_event h w deadline YES =
           ((case fst (h t (if ok then OK else NOT_OK) ((ctx w)\<lparr>completion_queue := rest\<rparr>)) of
               None \<Rightarrow> Inr True | Some e \<Rightarrow> Inl e),
            w\<lparr>ctx := work_finished (snd (h t (if ok then OK else NOT_OK)
                                           ((ctx w)\<lparr>completion_queue := rest\<rparr>))),
              trace := trace w @ [AsyncNext deadline,
                         Complete t (if ok then OK else NOT_OK), WorkFinished]\<rparr>)"
  using assms
  by (simp add: handle_next_completion_queue_event_def get_next_event_GOT_EVENT process_grpc_tag_eq
        split: option.splits)

theorem dispatch_classifies_by_invoke_witness:
  "trace (snd (handle_next_completion_queue_event quiet event_world 5 NO))
     = [AsyncNext 5, Complete 7 SHUTDOWN_OK, WorkFinished]
   \<and> trace (snd (handle_next_completion_queue_event quiet event_world 5 YES))
     = [AsyncNext 5, Complete 7 OK, WorkFinished]"
proof -
  have a: "completion_queue (ctx event_world) = GOT_EVENT 7 True # []" "trace event_world = []"
    by (simp_all add: event_world_def idle_world_def)
  have b: "(7::nat) \<noteq> HAS_REMOTE_WORK_TAG"
    by (simp add: HAS_REMOTE_WORK_TAG_def)
  from dispatch_classifies_by_invoke [OF a(1) b, of quiet 5] show ?thesis
    by (simp add: a(2))
qed

text \<open>On a context whose shutdown flag is set, \<^verbatim>\<open>do_one_completion_queue\<close> completes the
  operation of an ok event with \<^verbatim>\<open>OK\<close>, not with \<^verbatim>\<open>SHUTDOWN_OK\<close>.\<close>

theorem dispatch_ignores_shutdown_flag:
  "is_shutdown (ctx shut_down_world)
   \<and> trace (snd (do_one_completion_queue quiet shut_down_world 5))
       = [AsyncNext 5, Complete 7 OK, WorkFinished]"
  by (simp add: is_shutdown_def shut_down_world_def idle_world_def idle_context_def
        do_one_completion_queue_def handle_next_completion_queue_event_def get_next_event_def
        CompletionQueue_AsyncNext_def process_grpc_tag_def complete_def quiet_def
        WorkFinishedOnExitFunctor_def work_finished_def HAS_REMOTE_WORK_TAG_def)

text \<open>C6: when the completion queue yields the wake tag, in whatever state and under either
  value of \<open>invoke\<close>, the engine takes the event off the queue and sets the
  check-remote-work flag, and that is all: nothing is completed, no continuation is called
  and the outstanding-work counter keeps its value.\<close>

theorem wake_tag_not_dispatched:
  assumes "completion_queue (ctx w) = GOT_EVENT HAS_REMOTE_WORK_TAG ok # rest"
  shows "handle_next_completion_queue_event h w deadline invoke =
           (Inr True,
            w\<lparr>ctx := (ctx w)\<lparr>completion_queue := rest, check_remote_work := True\<rparr>,
              trace := trace w @ [AsyncNext deadline]\<rparr>)"
  using assms
  by (simp add: handle_next_completion_queue_event_def get_next_event_GOT_EVENT)

theorem wake_tag_not_dispatched_witness:
  "handle_next_completion_queue_event throwing_at_2 wake_world 5 YES =
     (Inr True,
      idle_world\<lparr>ctx := idle_context\<lparr>check_remote_work := True\<rparr>, trace := [AsyncNext 5]\<rparr>)"
proof -
  have a: "completion_queue (ctx wake_world) = GOT_EVENT HAS_REMOTE_WORK_TAG True # []"
    by (simp add: wake_world_def idle_world_def)
  from wake_tag_not_dispatched [OF a, of throwing_at_2 5 YES] show ?thesis
    by (simp add: wake_world_def idle_world_def idle_context_def)
qed

subsection \<open>One pass of the run loop\<close>




subsection \<open>Submitting from the engine's thread and from other threads\<close>

text \<open>C3: an operation submitted by the thread whose thread-local marker is this engine goes
  onto the local queue and nothing else changes: the remote queue is not touched and no alarm
  is set. Submitted by any other thread it is enqueued on the remote queue, and the wake alarm
  is set, with \<^verbatim>\<open>TIME_ZERO\<close> and the wake tag, exactly when the remote queue was inactive
  before the enqueue.\<close>

theorem add_operation_routing:
  "(running_in_this_thread w t \<longrightarrow>
      add_operation w t op = w\<lparr>ctx := (ctx w)\<lparr>local_work_queue := local_work_queue (ctx w) @ [op]\<rparr>\<rparr>)
   \<and> (\<not> running_in_this_thread w t \<longrightarrow>
      add_operation w t op =
        w\<lparr>ctx := (ctx w)\<lparr>remote_work_queue :=
                   \<lparr>items = items (remote_work_queue (ctx w)) @ [op], active = True\<rparr>\<rparr>,
          trace := trace w @ (if active (remote_work_queue (ctx w)) then []
                              else [AlarmSet TIME_ZERO HAS_REMOTE_WORK_TAG])\<rparr>)"
  by (simp add: add_operation_def add_local_operation_def add_remote_operation_def enqueue_def
        trigger_work_alarm_def Let_def)

theorem add_operation_routing_witness:
  "add_operation running_world 1 8 = running_world\<lparr>ctx := idle_context\<lparr>local_work_queue := [8]\<rparr>\<rparr>
   \<and> add_operation running_world 2 8 =
       running_world\<lparr>ctx := idle_context\<lparr>remote_work_queue := \<lparr>items = [8], active = True\<rparr>\<rparr>,
         trace := [AlarmSet TIME_ZERO HAS_REMOTE_WORK_TAG]\<rparr>
   \<and> add_operation (add_operation running_world 2 8) 2 9 =
       running_world\<lparr>ctx := idle_context\<lparr>remote_work_queue := \<lparr>items = [8, 9], active = True\<rparr>\<rparr>,
         trace := [AlarmSet TIME_ZERO HAS_REMOTE_WORK_TAG]\<rparr>"
proof -
  have r: "running_in_this_thread running_world 1" "\<not> running_in_this_thread running_world 2"
    "\<not> running_in_this_thread (add_operation running_world 2 8) 2"
    by (simp_all add: running_in_this_thread_def running_world_def ThreadLocalGrpcContextGuard_ctor_def
          set_thread_local_grpc_context_def idle_world_def idle_context_def add_operation_def
          add_remote_operation_def enqueue_def trigger_work_alarm_def Let_def)
  have s: "ctx running_world = idle_context" "trace running_world = []"
    by (simp_all add: running_world_def ThreadLocalGrpcContextGuard_ctor_def
          set_thread_local_grpc_context_def idle_world_def Let_def)
  from add_operation_routing [of running_world 1 8] add_operation_routing [of running_world 2 8]
    add_operation_routing [of "add_operation running_world 2 8" 2 9] r
  show ?thesis
    by (simp add: s idle_context_def)
qed

text \<open>C9: the fast path compares the thread-local marker with the address of this engine. A
  thread whose marker is another engine is not running in this one, and what it submits
  goes to the remote queue and leaves the local queue as it was.\<close>

theorem add_operation_other_engine_remote:
  assumes "thread_local_grpc_context w t = Some other" and "other \<noteq> self (ctx w)"
  shows "\<not> running_in_this_thread w t
       \<and> local_work_queue (ctx (add_operation w t op)) = local_work_queue (ctx w)
       \<and> items (remote_work_queue (ctx (add_operation w t op)))
           = items (remote_work_queue (ctx w)) @ [op]"
  using assms
  by (auto simp add: add_operation_def running_in_this_thread_def add_remote_operation_def
        enqueue_def trigger_work_alarm_def Let_def)

theorem add_operation_other_engine_remote_witness:
  "\<not> running_in_this_thread other_engine_world 2
   \<and> local_work_queue (ctx (add_operation other_engine_world 2 8)) = []
   \<and> items (remote_work_queue (ctx (add_operation other_engine_world 2 8))) = [8]"
proof -
  have a: "thread_local_grpc_context other_engine_world 2 = Some 200"
    "(200::nat) \<noteq> self (ctx other_engine_world)"
    by (simp_all add: other_engine_world_def idle_world_def idle_context_def)
  from add_operation_other_engine_remote [OF a, of 8] show ?thesis
    by (simp add: other_engine_world_def idle_world_def idle_context_def)
qed

subsection \<open>The walk over the notify-when-done list\<close>







subsection \<open>Finishing twice\<close>

text \<open>C7: once \<^verbatim>\<open>finish\<close> has completed on a call, the call is finished, and a second
  \<^verbatim>\<open>finish\<close> returns the status of the first, whatever the transport would report now,
  and issues no finish step: call and wire are as the first \<^verbatim>\<open>finish\<close> left them.\<close>

theorem finish_idempotent:
  "finish (fst (snd (finish rpc reported wire))) reported' (snd (snd (finish rpc reported wire)))
     = finish rpc reported wire
   \<and> is_finished (fst (snd (finish rpc reported wire)))"
  by (cases "ptr (tagged_context (client_context rpc))")
     (simp_all add: finish_def AtomicTaggedPtr_get_def set_finished_def clear_def
        AtomicTaggedPtr_clear_def AtomicTaggedPtr_of_def is_finished_def is_null_def
        AtomicTaggedPtr_is_null_def)

theorem finish_idempotent_witness:
  "finish open_call 4 [] = (4, set_finished (open_call\<lparr>status := 4\<rparr>), [FinishStep 50])
   \<and> finish (set_finished (open_call\<lparr>status := 4\<rparr>)) 14 [FinishStep 50]
       = (4, set_finished (open_call\<lparr>status := 4\<rparr>), [FinishStep 50])"
proof -
  have a: "finish open_call 4 [] = (4, set_finished (open_call\<lparr>status := 4\<rparr>), [FinishStep 50])"
    by (simp add: finish_def open_call_def AutoCancelClientContextRef_of_def AtomicTaggedPtr_of_def
          AtomicTaggedPtr_get_def)
  from finish_idempotent [of open_call 4 "[]" 14] show ?thesis
    by (simp add: a)
qed

subsection \<open>Ownership of the client context\<close>

text \<open>C8: the move constructor hands the client context to the new reference and leaves
  the source null; so does move assignment between two distinct references, after cancelling
  what the target held (assigning a reference to itself does nothing). Destroying a reference
  that holds a client context calls \<^verbatim>\<open>TryCancel\<close> on that context once; destroying a
  null reference calls nothing.\<close>

theorem AutoCancelClientContextRef_ownership:
  "is_null (snd (AutoCancelClientContextRef_move other))
   \<and> AtomicTaggedPtr_get (tagged_context (fst (AutoCancelClientContextRef_move other)))
       = AtomicTaggedPtr_get (tagged_context other)
   \<and> (this \<noteq> that \<longrightarrow>
        is_null (fst (AutoCancelClientContextRef_move_assign this that (refs, try_cancelled)) that)
        \<and> AtomicTaggedPtr_get (tagged_context
              (fst (AutoCancelClientContextRef_move_assign this that (refs, try_cancelled)) this))
            = AtomicTaggedPtr_get (tagged_context (refs that))
        \<and> snd (AutoCancelClientContextRef_move_assign this that (refs, try_cancelled))
            = AutoCancelClientContextRef_dtor (refs this) try_cancelled)
   \<and> (\<forall>c. AtomicTaggedPtr_get (tagged_context r) = Some c \<longrightarrow>
          \<not> is_null r \<and> AutoCancelClientContextRef_dtor r try_cancelled = try_cancelled @ [c])
   \<and> (is_null r \<longrightarrow> AutoCancelClientContextRef_dtor r try_cancelled = try_cancelled)"
  by (auto simp add: AutoCancelClientContextRef_move_def AutoCancelClientContextRef_move_assign_def
        AutoCancelClientContextRef_dtor_def cancel_def is_null_def AtomicTaggedPtr_is_null_def
        AtomicTaggedPtr_get_def AtomicTaggedPtr_clear_def AtomicTaggedPtr_of_def Let_def)

theorem AutoCancelClientContextRef_ownership_witness:
  "is_null (snd (AutoCancelClientContextRef_move (AutoCancelClientContextRef_of 50)))
   \<and> is_null (fst (AutoCancelClientContextRef_move_assign 1 2 (two_refs, [])) 2)
   \<and> snd (AutoCancelClientContextRef_move_assign 1 2 (two_refs, [])) = [50]
   \<and> AutoCancelClientContextRef_dtor (AutoCancelClientContextRef_of 50) [] = [50]
   \<and> AutoCancelClientContextRef_dtor
        (snd (AutoCancelClientContextRef_move (AutoCancelClientContextRef_of 50))) [] = []"
proof -
  have a: "(1::nat) \<noteq> 2" by simp
  have b: "AtomicTaggedPtr_get (tagged_context (AutoCancelClientContextRef_of 50)) = Some 50"
    by (simp add: AutoCancelClientContextRef_of_def AtomicTaggedPtr_of_def AtomicTaggedPtr_get_def)
  have c: "two_refs 1 = AutoCancelClientContextRef_of 50"
    by (simp add: two_refs_def)
  from AutoCancelClientContextRef_ownership
         [of "AutoCancelClientContextRef_of 50" 1 2 two_refs "[]" "AutoCancelClientContextRef_of 50"]
    AutoCancelClientContextRef_ownership
         [of "AutoCancelClientContextRef_of 50" 1 2 two_refs "[]"
             "snd (AutoCancelClientContextRef_move (AutoCancelClientContextRef_of 50))"]
    a b c
  show ?thesis
    by (simp add: AutoCancelClientContextRef_dtor_def cancel_def)
qed

end
